theory Spec2Isabelle
  imports Main "HOL-Library.Multiset"
begin

section \<open>JavaScript strings and numbers\<close>

text \<open>
  A string is a list of code units. The alphabet of the model is the code units
  0 to 255 (one \<open>char\<close> each); every character the program itself tests for (comma,
  double quote, line feed, the letter T, white space) lies in that range.
\<close>

abbreviation dquote :: char where "dquote \<equiv> CHR 0x22"
abbreviation comma :: char where "comma \<equiv> CHR 0x2C"
abbreviation newline :: char where "newline \<equiv> CHR 0x0A"

text \<open>\<open>String.prototype.includes\<close> with a one-character needle.\<close>

definition includes_char :: "string \<Rightarrow> char \<Rightarrow> bool" where
  "includes_char s c = (c \<in> set s)"

text \<open>\<open>s.replace(/"/g, '""')\<close>: every double quote becomes two.\<close>

fun replace_quotes :: "string \<Rightarrow> string" where
  "replace_quotes [] = []"
| "replace_quotes (c # cs) =
     (if c = dquote then dquote # dquote # replace_quotes cs else c # replace_quotes cs)"

text \<open>\<open>Array.prototype.join\<close> on an array of strings.\<close>

fun join :: "string \<Rightarrow> string list \<Rightarrow> string" where
  "join sep [] = []"
| "join sep [x] = x"
| "join sep (x # y # ys) = x @ sep @ join sep (y # ys)"

text \<open>\<open>String.prototype.split\<close> with a one-character separator; the result is never empty.\<close>

fun split :: "char \<Rightarrow> string \<Rightarrow> string list" where
  "split sep [] = [[]]"
| "split sep (c # cs) =
     (if c = sep then [] # split sep cs
      else (let ps = split sep cs in (c # hd ps) # tl ps))"

text \<open>
  \<open>String.prototype.trim\<close> removes white space and line terminators at both ends.
  Within the model's alphabet these are TAB, LF, VT, FF, CR, SPACE and NO-BREAK SPACE.
\<close>

definition isWhiteSpace :: "char \<Rightarrow> bool" where
  "isWhiteSpace c = (c \<in> set [CHR 0x09, CHR 0x0A, CHR 0x0B, CHR 0x0C, CHR 0x0D, CHR 0x20, CHR 0xA0])"

definition trim :: "string \<Rightarrow> string" where
  "trim s = rev (dropWhile isWhiteSpace (rev (dropWhile isWhiteSpace s)))"

text \<open>Decimal digits, and the zero-padded decimal string of a non-negative integer.\<close>

definition digitChar :: "nat \<Rightarrow> char" where
  "digitChar n = ''0123456789'' ! (n mod 10)"

definition isDigit :: "char \<Rightarrow> bool" where
  "isDigit c = (c \<in> set ''0123456789'')"

function decimal :: "nat \<Rightarrow> string" where
  "decimal n = (if n < 10 then [digitChar n] else decimal (n div 10) @ [digitChar n])"
  by pat_completeness auto
termination
  by (relation "measure id") auto

declare decimal.simps [simp del]

definition zeroPad :: "nat \<Rightarrow> nat \<Rightarrow> string" where
  "zeroPad w n = replicate (w - length (decimal n)) (CHR ''0'') @ decimal n"

text \<open>
  A JavaScript number that is either NaN (\<open>None\<close>) or an integer. The comparator of
  the query engine and the time value of a date are such numbers.
\<close>

type_synonym jsnum = "int option"

definition num_sub :: "jsnum \<Rightarrow> jsnum \<Rightarrow> jsnum" where
  "num_sub a b = (case (a, b) of (Some x, Some y) \<Rightarrow> Some (x - y) | _ \<Rightarrow> None)"

section \<open>Dates\<close>

text \<open>
  A \<open>Date\<close> holds a time value: milliseconds since 1970-01-01T00:00:00Z, or NaN for
  an invalid date. Time values are clipped to \<open>\<plusminus>8.64e15\<close>.
\<close>

type_synonym jsdate = "int option"

definition msPerDay :: int where "msPerDay = 86400000"

definition TimeClip :: "int \<Rightarrow> jsdate" where
  "TimeClip t = (if \<bar>t\<bar> \<le> 8640000000000000 then Some t else None)"

text \<open>\<open>new Date(d)\<close> for a date \<open>d\<close>: a date with the same time value.\<close>

definition newDate :: "jsdate \<Rightarrow> jsdate" where
  "newDate d = (case d of None \<Rightarrow> None | Some t \<Rightarrow> TimeClip t)"

definition getTime :: "jsdate \<Rightarrow> jsnum" where
  "getTime d = d"

definition Day :: "int \<Rightarrow> int" where
  "Day t = t div msPerDay"

definition WeekDay :: "int \<Rightarrow> nat" where
  "WeekDay t = nat ((Day t + 4) mod 7)"

text \<open>
  The proleptic Gregorian calendar. Days are counted within a 400-year era that begins
  on 1 March of a year divisible by 400; 1970-01-01 is day 719468 of that count. An era
  is four centuries, a century 25 four-year cycles, a cycle four years, and the leap day
  comes last in each.
\<close>

record civil =
  cYear :: int
  cMonth :: nat
  cDay :: nat

definition civil_from_days :: "int \<Rightarrow> civil" where
  "civil_from_days z =
     (let z1 = z + 719468;
          era = z1 div 146097;
          doe = z1 mod 146097;
          c = min (doe div 36524) 3;
          n1 = doe - c * 36524;
          q = min (n1 div 1461) 24;
          n2 = n1 - q * 1461;
          r = min (n2 div 365) 3;
          doy = n2 - r * 365;
          y = era * 400 + c * 100 + q * 4 + r;
          mp = (5 * doy + 2) div 153;
          d = doy - (153 * mp + 2) div 5 + 1;
          m = (if mp < 10 then mp + 3 else mp - 9)
      in \<lparr>cYear = (if m \<le> 2 then y + 1 else y), cMonth = nat m, cDay = nat d\<rparr>)"

definition days_from_civil :: "int \<Rightarrow> int \<Rightarrow> int \<Rightarrow> int" where
  "days_from_civil y m d =
     (let y1 = (if m \<le> 2 then y - 1 else y);
          era = y1 div 400;
          yoe = y1 mod 400;
          doy = (153 * (if m > 2 then m - 3 else m + 9) + 2) div 5 + d - 1;
          doe = yoe * 365 + yoe div 4 - yoe div 100 + doy
      in era * 146097 + doe - 719468)"

definition isLeapYear :: "int \<Rightarrow> bool" where
  "isLeapYear y = (y mod 4 = 0 \<and> (y mod 100 \<noteq> 0 \<or> y mod 400 = 0))"

definition DaysInMonth :: "int \<Rightarrow> int \<Rightarrow> int" where
  "DaysInMonth y m =
     (if m = 2 then (if isLeapYear y then 29 else 28)
      else if m = 4 \<or> m = 6 \<or> m = 9 \<or> m = 11 then 30 else 31)"

definition YearFromTime :: "int \<Rightarrow> int" where
  "YearFromTime t = cYear (civil_from_days (Day t))"

text \<open>Month of the year, 1 to 12 (JavaScript's \<open>MonthFromTime\<close> plus one).\<close>

definition MonthFromTime :: "int \<Rightarrow> nat" where
  "MonthFromTime t = cMonth (civil_from_days (Day t))"

definition DateFromTime :: "int \<Rightarrow> nat" where
  "DateFromTime t = cDay (civil_from_days (Day t))"

definition HourFromTime :: "int \<Rightarrow> nat" where
  "HourFromTime t = nat ((t div 3600000) mod 24)"

definition MinFromTime :: "int \<Rightarrow> nat" where
  "MinFromTime t = nat ((t div 60000) mod 60)"

definition SecFromTime :: "int \<Rightarrow> nat" where
  "SecFromTime t = nat ((t div 1000) mod 60)"

definition msFromTime :: "int \<Rightarrow> nat" where
  "msFromTime t = nat (t mod 1000)"

text \<open>
  What the program can throw or catch: an \<open>Error\<close> (or a subclass such as
  \<open>RangeError\<close>) with its message, or a value that is not an \<open>Error\<close>.
\<close>

datatype thrown = Error string | RangeError string | NotAnError

text \<open>
  \<open>Date.prototype.toISOString\<close>: \<open>YYYY-MM-DDTHH:mm:ss.sssZ\<close> in UTC, the year as
  four digits from 0 to 9999 and as a sign and six digits otherwise; an invalid date
  throws a \<open>RangeError\<close>.
\<close>

definition isoYear :: "int \<Rightarrow> string" where
  "isoYear y =
     (if 0 \<le> y \<and> y \<le> 9999 then zeroPad 4 (nat y)
      else (if y < 0 then ''-'' else ''+'') @ zeroPad 6 (nat \<bar>y\<bar>))"

definition isoDate :: "int \<Rightarrow> string" where
  "isoDate t =
     isoYear (YearFromTime t) @ ''-'' @ zeroPad 2 (MonthFromTime t) @ ''-'' @
     zeroPad 2 (DateFromTime t)"

definition isoTime :: "int \<Rightarrow> string" where
  "isoTime t =
     zeroPad 2 (HourFromTime t) @ '':'' @ zeroPad 2 (MinFromTime t) @ '':'' @
     zeroPad 2 (SecFromTime t) @ ''.'' @ zeroPad 3 (msFromTime t) @ ''Z''"

definition toISOString :: "jsdate \<Rightarrow> thrown + string" where
  "toISOString d =
     (case d of
        None \<Rightarrow> Inl (RangeError ''Invalid time value'')
      | Some t \<Rightarrow> Inr (isoDate t @ ''T'' @ isoTime t))"

text \<open>
  The host: what the JavaScript engine and its environment decide. \<open>localTZA h t\<close> is
  the offset of local time from UTC, in milliseconds, at the instant \<open>t\<close>;
  \<open>parseFallback\<close> is the engine's parser for date strings that are not a calendar
  date \<open>YYYY-MM-DD\<close>; \<open>localeCompare\<close> is the locale's string collation.
\<close>

record host =
  localTZA :: "int \<Rightarrow> int"
  parseFallback :: "string \<Rightarrow> jsdate"
  localeCompare :: "string \<Rightarrow> string \<Rightarrow> int"

definition LocalTime :: "host \<Rightarrow> int \<Rightarrow> int" where
  "LocalTime h t = t + localTZA h t"

text \<open>
  \<open>Date.prototype.toDateString\<close>: the local calendar day, as in \<open>Sat Jan 01 2000\<close>,
  or \<open>Invalid Date\<close>.
\<close>

definition weekDayName :: "nat \<Rightarrow> string" where
  "weekDayName n = [''Sun'', ''Mon'', ''Tue'', ''Wed'', ''Thu'', ''Fri'', ''Sat''] ! (n mod 7)"

definition monthName :: "nat \<Rightarrow> string" where
  "monthName m =
     [''Jan'', ''Feb'', ''Mar'', ''Apr'', ''May'', ''Jun'',
      ''Jul'', ''Aug'', ''Sep'', ''Oct'', ''Nov'', ''Dec''] ! ((m + 11) mod 12)"

definition DateString :: "int \<Rightarrow> string" where
  "DateString tv =
     weekDayName (WeekDay tv) @ '' '' @ monthName (MonthFromTime tv) @ '' '' @
     zeroPad 2 (DateFromTime tv) @ '' '' @
     (if YearFromTime tv < 0 then ''-'' else '''') @ zeroPad 4 (nat \<bar>YearFromTime tv\<bar>)"

definition toDateString :: "host \<Rightarrow> jsdate \<Rightarrow> string" where
  "toDateString h d =
     (case d of None \<Rightarrow> ''Invalid Date'' | Some t \<Rightarrow> DateString (LocalTime h t))"

text \<open>
  \<open>new Date(s)\<close> for a string \<open>s\<close>. A calendar date \<open>YYYY-MM-DD\<close> is midnight UTC of
  that day; any other string is left to the engine.
\<close>

definition digitsValue :: "string \<Rightarrow> nat" where
  "digitsValue s = foldl (\<lambda>acc c. 10 * acc + (of_char c - 48)) 0 s"

definition parseIsoDateOnly :: "string \<Rightarrow> int option" where
  "parseIsoDateOnly s =
     (if length s = 10 \<and> s ! 4 = CHR ''-'' \<and> s ! 7 = CHR ''-'' \<and>
         list_all isDigit (take 4 s) \<and> list_all isDigit (take 2 (drop 5 s)) \<and>
         list_all isDigit (drop 8 s)
      then (let y = int (digitsValue (take 4 s));
                m = int (digitsValue (take 2 (drop 5 s)));
                d = int (digitsValue (drop 8 s))
            in if 1 \<le> m \<and> m \<le> 12 \<and> 1 \<le> d \<and> d \<le> DaysInMonth y m
               then Some (days_from_civil y m d * msPerDay) else None)
      else None)"

definition parseDate :: "host \<Rightarrow> string \<Rightarrow> jsdate" where
  "parseDate h s =
     (case parseIsoDateOnly s of Some t \<Rightarrow> TimeClip t | None \<Rightarrow> parseFallback h s)"

section \<open>The data model\<close>

datatype gender = male | female

definition genderString :: "gender \<Rightarrow> string" where
  "genderString g = (case g of male \<Rightarrow> ''male'' | female \<Rightarrow> ''female'')"

text \<open>
  \<open>User\<close>: \<open>id\<close> and \<open>profilePicture\<close> are optional (\<open>None\<close> is \<open>undefined\<close>).
\<close>

record user =
  id_field :: "string option"
  name :: string
  email :: string
  dateOfBirth :: jsdate
  gender :: gender
  profilePicture :: "string option"
  createdAt :: jsdate
  updatedAt :: jsdate

section \<open>The CSV exporter\<close>

text \<open>
  The values \<open>escapeCsvValue\<close> receives: \<open>null\<close>, \<open>undefined\<close> or a string (the
  exporter passes it strings only).
\<close>

datatype jsval = Null | Undefined | Str string

text \<open>
  \<open>formatDate\<close> of the exporter: the part of the ISO string before the \<open>T\<close>, and the
  empty string when \<open>toISOString\<close> throws (what the \<open>catch\<close> branch writes to the
  console is not part of the result).
\<close>

definition formatDate :: "jsdate \<Rightarrow> string" where
  "formatDate date =
     (case toISOString date of
        Inl err \<Rightarrow> []
      | Inr isoString \<Rightarrow>
          (let parts = split (CHR ''T'') isoString
           in case parts of [] \<Rightarrow> [] | p # ps \<Rightarrow> p))"

definition escapeCsvValue :: "jsval \<Rightarrow> string" where
  "escapeCsvValue v =
     (case v of
        Null \<Rightarrow> []
      | Undefined \<Rightarrow> []
      | Str stringValue \<Rightarrow>
          (if includes_char stringValue comma \<or> includes_char stringValue dquote \<or>
              includes_char stringValue newline
           then [dquote] @ replace_quotes stringValue @ [dquote]
           else stringValue))"

definition headers :: "string list" where
  "headers = [''Name'', ''Email'', ''Date of Birth'', ''Gender'', ''Profile Picture'',
              ''Created At'', ''Updated At'', ''ID'']"

definition headerRow :: string where
  "headerRow = join '','' (map (\<lambda>s. escapeCsvValue (Str s)) headers)"

text \<open>\<open>x || ''\<close> for an optional string.\<close>

definition or_empty :: "string option \<Rightarrow> string" where
  "or_empty v = (case v of None \<Rightarrow> [] | Some s \<Rightarrow> s)"

definition userValues :: "user \<Rightarrow> string list" where
  "userValues u =
     [name u,
      email u,
      formatDate (newDate (dateOfBirth u)),
      genderString (gender u),
      or_empty (profilePicture u),
      formatDate (newDate (createdAt u)),
      formatDate (newDate (updatedAt u)),
      or_empty (id_field u)]"

definition userCells :: "user \<Rightarrow> string list" where
  "userCells u = map (\<lambda>s. escapeCsvValue (Str s)) (userValues u)"

definition userRow :: "user \<Rightarrow> string" where
  "userRow u = join '','' (userCells u)"

definition usersToCSV :: "user list \<Rightarrow> string" where
  "usersToCSV us = join [newline] (headerRow # map userRow us)"

section \<open>The query engine\<close>

datatype gender_choice = all_genders | only gender

datatype picture_choice = with_picture | without_picture | all_pictures

record filterCriteria =
  genderFilter :: gender_choice
  profilePictureFilter :: picture_choice
  dateOfBirthFilter :: string
  createdAtFilter :: string
  updatedAtFilter :: string

datatype sortKey =
  key_id | key_name | key_email | key_dateOfBirth | key_gender | key_profilePicture |
  key_createdAt | key_updatedAt

datatype sortDirection = asc | desc

record sortCriteria =
  sortBy :: sortKey
  sortOrder :: sortDirection

subsection \<open>Filtering\<close>

definition hasProfilePicture :: "user \<Rightarrow> bool" where
  "hasProfilePicture u =
     (case profilePicture u of None \<Rightarrow> False | Some s \<Rightarrow> s \<noteq> [] \<and> trim s \<noteq> [])"

definition sameDay :: "host \<Rightarrow> jsdate \<Rightarrow> jsdate \<Rightarrow> bool" where
  "sameDay h userDate filterDate = (toDateString h userDate = toDateString h filterDate)"

definition genderStage :: "filterCriteria \<Rightarrow> user list \<Rightarrow> user list" where
  "genderStage crit result =
     (if genderFilter crit \<noteq> all_genders
      then filter (\<lambda>u. only (gender u) = genderFilter crit) result
      else result)"

definition pictureStage :: "filterCriteria \<Rightarrow> user list \<Rightarrow> user list" where
  "pictureStage crit result =
     (if profilePictureFilter crit \<noteq> all_pictures
      then filter (\<lambda>u. if profilePictureFilter crit = with_picture
                        then hasProfilePicture u else \<not> hasProfilePicture u) result
      else result)"

definition dateOfBirthStage :: "host \<Rightarrow> filterCriteria \<Rightarrow> user list \<Rightarrow> user list" where
  "dateOfBirthStage h crit result =
     (if dateOfBirthFilter crit \<noteq> []
      then (let filterDate = parseDate h (dateOfBirthFilter crit)
            in filter (\<lambda>u. sameDay h (newDate (dateOfBirth u)) filterDate) result)
      else result)"

definition createdAtStage :: "host \<Rightarrow> filterCriteria \<Rightarrow> user list \<Rightarrow> user list" where
  "createdAtStage h crit result =
     (if createdAtFilter crit \<noteq> []
      then (let filterDate = parseDate h (createdAtFilter crit)
            in filter (\<lambda>u. sameDay h (newDate (createdAt u)) filterDate) result)
      else result)"

definition updatedAtStage :: "host \<Rightarrow> filterCriteria \<Rightarrow> user list \<Rightarrow> user list" where
  "updatedAtStage h crit result =
     (if updatedAtFilter crit \<noteq> []
      then (let filterDate = parseDate h (updatedAtFilter crit)
            in filter (\<lambda>u. sameDay h (newDate (updatedAt u)) filterDate) result)
      else result)"

text \<open>The five stages in the order of the source.\<close>

definition filterStages :: "host \<Rightarrow> filterCriteria \<Rightarrow> user list \<Rightarrow> user list" where
  "filterStages h crit us =
     updatedAtStage h crit (createdAtStage h crit (dateOfBirthStage h crit
       (pictureStage crit (genderStage crit us))))"

text \<open>The stages by name, to run them in another order.\<close>

datatype stage = Gender | Picture | DateOfBirth | CreatedAt | UpdatedAt

fun applyStage :: "host \<Rightarrow> filterCriteria \<Rightarrow> stage \<Rightarrow> user list \<Rightarrow> user list" where
  "applyStage h crit Gender = genderStage crit"
| "applyStage h crit Picture = pictureStage crit"
| "applyStage h crit DateOfBirth = dateOfBirthStage h crit"
| "applyStage h crit CreatedAt = createdAtStage h crit"
| "applyStage h crit UpdatedAt = updatedAtStage h crit"

definition runStages :: "host \<Rightarrow> filterCriteria \<Rightarrow> stage list \<Rightarrow> user list \<Rightarrow> user list" where
  "runStages h crit order us = fold (applyStage h crit) order us"

subsection \<open>Sorting\<close>

text \<open>\<open>a[sortBy]\<close>: the value of a field.\<close>

datatype fieldValue = DateVal jsdate | StrVal string | UndefinedVal

definition optStr :: "string option \<Rightarrow> fieldValue" where
  "optStr v = (case v of None \<Rightarrow> UndefinedVal | Some s \<Rightarrow> StrVal s)"

fun getField :: "sortKey \<Rightarrow> user \<Rightarrow> fieldValue" where
  "getField key_id u = optStr (id_field u)"
| "getField key_name u = StrVal (name u)"
| "getField key_email u = StrVal (email u)"
| "getField key_dateOfBirth u = DateVal (dateOfBirth u)"
| "getField key_gender u = StrVal (genderString (gender u))"
| "getField key_profilePicture u = optStr (profilePicture u)"
| "getField key_createdAt u = DateVal (createdAt u)"
| "getField key_updatedAt u = DateVal (updatedAt u)"

text \<open>\<open>(v as string) || ''\<close>.\<close>

definition strOrEmpty :: "fieldValue \<Rightarrow> string" where
  "strOrEmpty v = (case v of StrVal s \<Rightarrow> s | _ \<Rightarrow> [])"

text \<open>The comparator handed to \<open>sort\<close>; its result is a number.\<close>

definition compareUsers :: "host \<Rightarrow> sortCriteria \<Rightarrow> user \<Rightarrow> user \<Rightarrow> jsnum" where
  "compareUsers h sc a b =
     (let aVal = getField (sortBy sc) a; bVal = getField (sortBy sc) b
      in case (aVal, bVal) of
           (DateVal da, DateVal db) \<Rightarrow>
             (if sortOrder sc = asc then num_sub (getTime da) (getTime db)
              else num_sub (getTime db) (getTime da))
         | _ \<Rightarrow>
             if sortBy sc = key_gender then
               (if sortOrder sc = asc
                then Some (localeCompare h (genderString (gender a)) (genderString (gender b)))
                else Some (localeCompare h (genderString (gender b)) (genderString (gender a))))
             else if sortBy sc = key_profilePicture then
               (let aStr = strOrEmpty aVal; bStr = strOrEmpty bVal
                in if aStr = [] \<and> bStr = [] then Some 0
                   else if aStr = [] then (if sortOrder sc = asc then Some 1 else Some (- 1))
                   else if bStr = [] then (if sortOrder sc = asc then Some (- 1) else Some 1)
                   else if sortOrder sc = asc then Some (localeCompare h aStr bStr)
                   else Some (localeCompare h bStr aStr))
             else
               (case (aVal, bVal) of
                  (StrVal x, StrVal y) \<Rightarrow>
                    (if sortOrder sc = asc then Some (localeCompare h x y)
                     else Some (localeCompare h y x))
                | _ \<Rightarrow> Some 0))"

text \<open>
  \<open>Array.prototype.sort\<close> with a comparator: a stable sort in which \<open>x\<close> stays before a
  later \<open>y\<close> unless the comparator's result for \<open>(x, y)\<close> is positive; a NaN result counts
  as zero. Modelled as insertion sort from the right, which is the order every engine
  produces when the comparator is consistent.
\<close>

definition comesAfter :: "('a \<Rightarrow> 'a \<Rightarrow> jsnum) \<Rightarrow> 'a \<Rightarrow> 'a \<Rightarrow> bool" where
  "comesAfter cmp x y = (case cmp x y of None \<Rightarrow> False | Some v \<Rightarrow> v > 0)"

fun insertSorted :: "('a \<Rightarrow> 'a \<Rightarrow> jsnum) \<Rightarrow> 'a \<Rightarrow> 'a list \<Rightarrow> 'a list" where
  "insertSorted cmp x [] = [x]"
| "insertSorted cmp x (y # ys) =
     (if comesAfter cmp x y then y # insertSorted cmp x ys else x # y # ys)"

definition sortArray :: "('a \<Rightarrow> 'a \<Rightarrow> jsnum) \<Rightarrow> 'a list \<Rightarrow> 'a list" where
  "sortArray cmp xs = foldr (insertSorted cmp) xs []"

text \<open>The value of the computed \<open>filteredUsers\<close>.\<close>

definition filteredUsers ::
  "host \<Rightarrow> filterCriteria \<Rightarrow> sortCriteria \<Rightarrow> user list \<Rightarrow> user list" where
  "filteredUsers h crit sc us = sortArray (compareUsers h sc) (filterStages h crit us)"

subsection \<open>The arrays behind the values\<close>

text \<open>
  Arrays are objects: \<open>filter\<close> and the spread \<open>[...result]\<close> allocate a new array,
  \<open>sort\<close> reorders the array it is called on, and a stage that is switched off leaves
  \<open>result\<close> pointing at the array it pointed at. The heap maps a reference (an index)
  to the contents of the array; allocation appends, and a reference is valid when it is
  below the length of the heap.
\<close>

type_synonym ref = nat
type_synonym heap = "user list list"

definition array_filter :: "(user \<Rightarrow> bool) \<Rightarrow> ref \<times> heap \<Rightarrow> ref \<times> heap" where
  "array_filter p st = (case st of (r, H) \<Rightarrow> (length H, H @ [filter p (H ! r)]))"

definition array_spread :: "ref \<times> heap \<Rightarrow> ref \<times> heap" where
  "array_spread st = (case st of (r, H) \<Rightarrow> (length H, H @ [H ! r]))"

definition array_sort :: "(user \<Rightarrow> user \<Rightarrow> jsnum) \<Rightarrow> ref \<times> heap \<Rightarrow> ref \<times> heap" where
  "array_sort cmp st = (case st of (r, H) \<Rightarrow> (r, H[r := sortArray cmp (H ! r)]))"

definition filteredUsers_heap ::
  "host \<Rightarrow> filterCriteria \<Rightarrow> sortCriteria \<Rightarrow> ref \<times> heap \<Rightarrow> ref \<times> heap" where
  "filteredUsers_heap h crit sc st0 =
     (let st1 = (if genderFilter crit \<noteq> all_genders
                 then array_filter (\<lambda>u. only (gender u) = genderFilter crit) st0 else st0);
          st2 = (if profilePictureFilter crit \<noteq> all_pictures
                 then array_filter (\<lambda>u. if profilePictureFilter crit = with_picture
                                          then hasProfilePicture u else \<not> hasProfilePicture u) st1
                 else st1);
          st3 = (if dateOfBirthFilter crit \<noteq> []
                 then array_filter (\<lambda>u. sameDay h (newDate (dateOfBirth u))
                                            (parseDate h (dateOfBirthFilter crit))) st2
                 else st2);
          st4 = (if createdAtFilter crit \<noteq> []
                 then array_filter (\<lambda>u. sameDay h (newDate (createdAt u))
                                            (parseDate h (createdAtFilter crit))) st3
                 else st3);
          st5 = (if updatedAtFilter crit \<noteq> []
                 then array_filter (\<lambda>u. sameDay h (newDate (updatedAt u))
                                            (parseDate h (updatedAtFilter crit))) st4
                 else st4)
      in array_sort (compareUsers h sc) (array_spread st5))"

section \<open>The collection store\<close>

text \<open>
  The module-level state \<open>users\<close>, \<open>loading\<close>, \<open>error\<close>, and what the wrapper writes to
  the console.
\<close>

datatype logEntry = ConsoleLog string | ConsoleError string string

record store =
  users :: "user list"
  loading :: bool
  error :: "string option"
  console :: "logEntry list"

text \<open>
  A call of the remote service, once settled: rejected with what was thrown (\<open>Inl\<close>) or
  fulfilled with a value (\<open>Inr\<close>). The service is outside the store; its outcome is an
  input of each operation.
\<close>

type_synonym 'a settled = "thrown + 'a"

text \<open>
  What one call of an operation yields: the value it returns, the store as it is when
  the wrapped operation starts to run (\<open>None\<close> if the wrapper is not entered), and the
  store when the call returns.
\<close>

record 'a run =
  returned :: 'a
  started :: "store option"
  final :: store

definition errorMessageOf :: "thrown \<Rightarrow> string" where
  "errorMessageOf err =
     (case err of Error m \<Rightarrow> m | RangeError m \<Rightarrow> m
      | NotAnError \<Rightarrow> ''An unexpected error occurred'')"

text \<open>
  \<open>withLoadingAndError\<close>: the operation runs on the store and either returns or throws;
  \<open>catch\<close> records the message, \<open>finally\<close> clears \<open>loading\<close>. \<open>None\<close> is \<open>null\<close>.
\<close>

definition withLoadingAndError ::
  "(store \<Rightarrow> 'a settled \<times> store) \<Rightarrow> string option \<Rightarrow> store \<Rightarrow> ('a option) run" where
  "withLoadingAndError operation successMessage s =
     (let s1 = s\<lparr>loading := True, error := None\<rparr>
      in case operation s1 of
           (Inr result, s2) \<Rightarrow>
             (let s3 = (case successMessage of
                          None \<Rightarrow> s2
                        | Some m \<Rightarrow> if m \<noteq> [] then s2\<lparr>console := console s2 @ [ConsoleLog m]\<rparr>
                                    else s2)
              in \<lparr>returned = Some result, started = Some s1, final = s3\<lparr>loading := False\<rparr>\<rparr>)
         | (Inl err, s2) \<Rightarrow>
             (let errorMessage = errorMessageOf err;
                  s3 = s2\<lparr>error := Some errorMessage\<rparr>;
                  s4 = s3\<lparr>console := console s3 @ [ConsoleError ''Operation failed:'' errorMessage]\<rparr>
              in \<lparr>returned = None, started = Some s1, final = s4\<lparr>loading := False\<rparr>\<rparr>))"



text \<open>\<open>Array.prototype.findIndex\<close>: the first index that satisfies \<open>p\<close>, or \<open>-1\<close>.\<close>

fun findIndex :: "('a \<Rightarrow> bool) \<Rightarrow> 'a list \<Rightarrow> int" where
  "findIndex p [] = - 1"
| "findIndex p (x # xs) =
     (if p x then 0 else (let i = findIndex p xs in if i = - 1 then - 1 else i + 1))"

definition updateUser :: "user settled \<Rightarrow> store \<Rightarrow> (user option) run" where
  "updateUser remote s =
     withLoadingAndError
       (\<lambda>s1. case remote of
                Inl err \<Rightarrow> (Inl err, s1)
              | Inr updatedUser \<Rightarrow>
                  (let index = findIndex (\<lambda>u. id_field u = id_field updatedUser) (users s1)
                   in (Inr updatedUser,
                       if index \<noteq> - 1
                       then s1\<lparr>users := (users s1)[nat index := updatedUser]\<rparr>
                       else s1)))
       (Some ''User updated successfully'') s"

definition deleteUser :: "string \<Rightarrow> unit settled \<Rightarrow> store \<Rightarrow> bool run" where
  "deleteUser i remote s =
     (let r = withLoadingAndError
                (\<lambda>s1. case remote of
                         Inl err \<Rightarrow> (Inl err, s1)
                       | Inr _ \<Rightarrow>
                           (Inr True, s1\<lparr>users := filter (\<lambda>u. id_field u \<noteq> Some i) (users s1)\<rparr>))
                (Some ''User deleted successfully'') s
      in \<lparr>returned = (returned r \<noteq> None), started = started r, final = final r\<rparr>)"


section \<open>Notions of the specification\<close>

text \<open>
  The cell the specification describes for a value: wrapped in double quotes, with every
  double quote inside doubled, exactly when the string contains a comma, a double quote
  or a line feed; the string itself otherwise; empty for \<open>null\<close> and \<open>undefined\<close>.
\<close>

definition spec_csvCell :: "jsval \<Rightarrow> string" where
  "spec_csvCell v =
     (case v of
        Str s \<Rightarrow>
          (if comma \<in> set s \<or> dquote \<in> set s \<or> newline \<in> set s
           then [dquote] @ concat (map (\<lambda>c. if c = dquote then [dquote, dquote] else [c]) s) @
                [dquote]
           else s)
      | _ \<Rightarrow> [])"

text \<open>The first line of a text: everything before the first line feed.\<close>

definition firstLine :: "string \<Rightarrow> string" where
  "firstLine s = takeWhile (\<lambda>c. c \<noteq> newline) s"


text \<open>A record whose picture is absent or empty, and lists with such records last or first.\<close>

definition pictureMissing :: "user \<Rightarrow> bool" where
  "pictureMissing u = (profilePicture u = None \<or> profilePicture u = Some [])"

definition missingLast :: "user list \<Rightarrow> bool" where
  "missingLast ys = (\<forall>i j. i < j \<and> j < length ys \<and> pictureMissing (ys ! i) \<longrightarrow> pictureMissing (ys ! j))"

definition missingFirst :: "user list \<Rightarrow> bool" where
  "missingFirst ys = (\<forall>i j. i < j \<and> j < length ys \<and> pictureMissing (ys ! j) \<longrightarrow> pictureMissing (ys ! i))"


section \<open>Example data\<close>


text \<open>A collation for the examples: code unit by code unit.\<close>

fun codeUnitCompare :: "string \<Rightarrow> string \<Rightarrow> int" where
  "codeUnitCompare [] [] = 0"
| "codeUnitCompare [] (y # ys) = - 1"
| "codeUnitCompare (x # xs) [] = 1"
| "codeUnitCompare (x # xs) (y # ys) =
     (if (of_char x :: nat) < of_char y then - 1
      else if (of_char y :: nat) < of_char x then 1
      else codeUnitCompare xs ys)"

text \<open>A host whose local time is UTC plus a fixed offset, in milliseconds.\<close>

definition fixedOffsetHost :: "int \<Rightarrow> host" where
  "fixedOffsetHost off =
     \<lparr>localTZA = (\<lambda>t. off), parseFallback = (\<lambda>s. None), localeCompare = codeUnitCompare\<rparr>"

definition noFilters :: filterCriteria where
  "noFilters =
     \<lparr>genderFilter = all_genders, profilePictureFilter = all_pictures,
      dateOfBirthFilter = [], createdAtFilter = [], updatedAtFilter = []\<rparr>"

definition byName :: sortCriteria where
  "byName = \<lparr>sortBy = key_name, sortOrder = asc\<rparr>"

text \<open>Bob, born 1990-05-01, without a picture; Ann, born 1985-01-01, with one.\<close>

definition bob :: user where
  "bob =
     \<lparr>id_field = Some ''b'', name = ''Bob'', email = ''bob@example.com'',
      dateOfBirth = Some 641520000000, gender = male, profilePicture = Some [],
      createdAt = Some 1700000000000, updatedAt = Some 1700000000000\<rparr>"

definition ann :: user where
  "ann =
     \<lparr>id_field = Some ''a'', name = ''Ann'', email = ''ann@example.com'',
      dateOfBirth = Some 473385600000, gender = female, profilePicture = Some ''http://x'',
      createdAt = Some 1600000000000, updatedAt = Some 1650000000000\<rparr>"

definition byPicture :: "sortDirection \<Rightarrow> sortCriteria" where
  "byPicture d = \<lparr>sortBy = key_profilePicture, sortOrder = d\<rparr>"

definition blankPictureUser :: user where
  "blankPictureUser = ann\<lparr>name := ''Cy'', profilePicture := Some '' ''\<rparr>"

definition onlyWithPicture :: filterCriteria where
  "onlyWithPicture = noFilters\<lparr>profilePictureFilter := with_picture\<rparr>"

definition onlyWithoutPicture :: filterCriteria where
  "onlyWithoutPicture = noFilters\<lparr>profilePictureFilter := without_picture\<rparr>"



text \<open>A store that holds Bob and Ann and the error of an earlier call.\<close>

definition exampleStore :: store where
  "exampleStore = \<lparr>users = [bob, ann], loading = False, error = Some ''stale'', console = []\<rparr>"

section \<open>The CSV exporter: escaping and the header\<close>

lemma replace_quotes_concat:
  "replace_quotes s = concat (map (\<lambda>c. if c = dquote then [dquote, dquote] else [c]) s)"
  by (induction s) auto

text \<open>
  C4. A value is quoted, with its double quotes doubled, if and only if its string contains
  a comma, a double quote or a line feed; otherwise the cell is the string itself;
  \<open>null\<close> and \<open>undefined\<close> give the empty cell. The name \<open>O"Brien, Jr.\<close> is
  serialized as \<open>"O""Brien, Jr."\<close>.
\<close>

theorem escapeCsvValue_quotes_when_needed:
  \<open>escapeCsvValue v = spec_csvCell v \<and>
   (escapeCsvValue (Str s) = [dquote] @ replace_quotes s @ [dquote]
      \<longleftrightarrow> comma \<in> set s \<or> dquote \<in> set s \<or> newline \<in> set s) \<and>
   (escapeCsvValue (Str s) = s
      \<longleftrightarrow> \<not> (comma \<in> set s \<or> dquote \<in> set s \<or> newline \<in> set s)) \<and>
   escapeCsvValue Null = [] \<and> escapeCsvValue Undefined = [] \<and>
   escapeCsvValue (Str ''O"Brien, Jr.'') = ''"O""Brien, Jr."''\<close>
proof -
  have a: "escapeCsvValue v = spec_csvCell v"
    by (cases v) (simp_all add: escapeCsvValue_def spec_csvCell_def includes_char_def replace_quotes_concat)
  have len: "length (replace_quotes s) \<ge> length s"
    by (induction s) auto
  have b: "escapeCsvValue (Str s) = [dquote] @ replace_quotes s @ [dquote]
      \<longleftrightarrow> comma \<in> set s \<or> dquote \<in> set s \<or> newline \<in> set s"
  proof (cases "comma \<in> set s \<or> dquote \<in> set s \<or> newline \<in> set s")
    case True
    then show ?thesis by (simp add: escapeCsvValue_def includes_char_def)
  next
    case False
    have "length s \<noteq> length ([dquote] @ replace_quotes s @ [dquote])" using len by simp
    then have "s \<noteq> [dquote] @ replace_quotes s @ [dquote]" by metis
    with False show ?thesis by (simp add: escapeCsvValue_def includes_char_def)
  qed
  have c: "escapeCsvValue (Str s) = s
      \<longleftrightarrow> \<not> (comma \<in> set s \<or> dquote \<in> set s \<or> newline \<in> set s)"
  proof (cases "comma \<in> set s \<or> dquote \<in> set s \<or> newline \<in> set s")
    case True
    have "length s \<noteq> length ([dquote] @ replace_quotes s @ [dquote])" using len by simp
    then have "[dquote] @ replace_quotes s @ [dquote] \<noteq> s" by metis
    with True show ?thesis by (simp add: escapeCsvValue_def includes_char_def)
  next
    case False
    then show ?thesis by (simp add: escapeCsvValue_def includes_char_def)
  qed
  have d: \<open>escapeCsvValue (Str ''O"Brien, Jr.'') = ''"O""Brien, Jr."''\<close>
    by (simp add: escapeCsvValue_def includes_char_def)
  show ?thesis using a b c d by (simp add: escapeCsvValue_def)
qed

lemma headerRow_value:
  "headerRow = ''Name,Email,Date of Birth,Gender,Profile Picture,Created At,Updated At,ID''"
  by (simp add: headerRow_def headers_def escapeCsvValue_def includes_char_def)

lemma takeWhile_before: "c \<notin> set a \<Longrightarrow> takeWhile (\<lambda>x. x \<noteq> c) (a @ c # b) = a"
  by (induction a) auto

lemma takeWhile_all: "c \<notin> set a \<Longrightarrow> takeWhile (\<lambda>x. x \<noteq> c) a = a"
  by (induction a) auto

text \<open>
  C9. The first line of every export is the header, with the columns Name, Email, Date of
  Birth, Gender, Profile Picture, Created At, Updated At, ID in that order; the export of
  the empty list is that line alone, with no line feed after it.
\<close>

theorem usersToCSV_header:
  "firstLine (usersToCSV us) = ''Name,Email,Date of Birth,Gender,Profile Picture,Created At,Updated At,ID'' \<and>
   usersToCSV [] = ''Name,Email,Date of Birth,Gender,Profile Picture,Created At,Updated At,ID'' \<and>
   newline \<notin> set (usersToCSV [])"
proof -
  have nl: "newline \<notin> set headerRow" by (simp add: headerRow_value)
  have empty: "usersToCSV [] = headerRow" by (simp add: usersToCSV_def)
  have "firstLine (usersToCSV us) = headerRow"
  proof (cases us)
    case Nil
    then show ?thesis using nl by (simp add: empty firstLine_def takeWhile_all)
  next
    case (Cons u rest)
    have "usersToCSV us = headerRow @ newline # join [newline] (map userRow us)"
      using Cons by (simp add: usersToCSV_def)
    then show ?thesis using nl by (simp add: firstLine_def takeWhile_before)
  qed
  then show ?thesis using nl empty by (simp add: headerRow_value)
qed

section \<open>The calendar and the date cells\<close>






























section \<open>The query engine: filtering\<close>

lemma fold_filter:
  "fold (\<lambda>s. filter (P s)) ss xs = filter (\<lambda>x. \<forall>s\<in>set ss. P s x) xs"
  by (induction ss arbitrary: xs) (auto intro: filter_cong)

lemma applyStage_is_filter: "\<exists>P. applyStage h crit s = filter P"
proof -
  have keep: "(\<lambda>xs::user list. xs) = filter (\<lambda>u. True)" by (rule ext) simp
  show ?thesis
  proof (cases s)
    case Gender
    show ?thesis unfolding Gender applyStage.simps
      by (cases "genderFilter crit \<noteq> all_genders")
         (auto simp: genderStage_def [abs_def] keep simp del: filter_True)
  next
    case Picture
    show ?thesis unfolding Picture applyStage.simps
      by (cases "profilePictureFilter crit \<noteq> all_pictures")
         (auto simp: pictureStage_def [abs_def] keep simp del: filter_True)
  next
    case DateOfBirth
    show ?thesis unfolding DateOfBirth applyStage.simps
      by (cases "dateOfBirthFilter crit \<noteq> []")
         (auto simp: dateOfBirthStage_def [abs_def] keep simp del: filter_True)
  next
    case CreatedAt
    show ?thesis unfolding CreatedAt applyStage.simps
      by (cases "createdAtFilter crit \<noteq> []")
         (auto simp: createdAtStage_def [abs_def] keep simp del: filter_True)
  next
    case UpdatedAt
    show ?thesis unfolding UpdatedAt applyStage.simps
      by (cases "updatedAtFilter crit \<noteq> []")
         (auto simp: updatedAtStage_def [abs_def] keep simp del: filter_True)
  qed
qed

lemma runStages_set:
  assumes "set order1 = set order2"
  shows "runStages h crit order1 us = runStages h crit order2 us"
proof -
  have "\<forall>s. \<exists>P. applyStage h crit s = filter P" by (simp add: applyStage_is_filter)
  then obtain P where P: "\<And>s. applyStage h crit s = filter (P s)" by metis
  then have "applyStage h crit = (\<lambda>s. filter (P s))" by (intro ext) simp
  then show ?thesis using assms by (simp add: runStages_def fold_filter)
qed

lemma filterStages_runStages:
  "filterStages h crit us = runStages h crit [Gender, Picture, DateOfBirth, CreatedAt, UpdatedAt] us"
  by (simp add: filterStages_def runStages_def)

lemma array_filter_step:
  assumes "fst st < length (snd st)" "take (length H) (snd st) = H" "snd st ! fst st = xs"
  shows "fst (if b then array_filter p st else st) < length (snd (if b then array_filter p st else st)) \<and>
         take (length H) (snd (if b then array_filter p st else st)) = H \<and>
         snd (if b then array_filter p st else st) ! fst (if b then array_filter p st else st) =
           (if b then filter p xs else xs)"
proof -
  have "length H \<le> length (snd st)"
    using assms(2) by (metis length_take min.cobounded1)
  then show ?thesis using assms by (cases st) (simp add: array_filter_def)
qed

lemma filteredUsers_heap_result:
  assumes r: "r < length H"
  shows "\<exists>H2. filteredUsers_heap h crit sc (r, H) =
           (length H + length H2, H @ H2 @ [filteredUsers h crit sc (H ! r)])"
proof -
  define st1 where "st1 = (if genderFilter crit \<noteq> all_genders
      then array_filter (\<lambda>u. only (gender u) = genderFilter crit) (r, H) else (r, H))"
  define st2 where "st2 = (if profilePictureFilter crit \<noteq> all_pictures
      then array_filter (\<lambda>u. if profilePictureFilter crit = with_picture
                              then hasProfilePicture u else \<not> hasProfilePicture u) st1
      else st1)"
  define st3 where "st3 = (if dateOfBirthFilter crit \<noteq> []
      then array_filter (\<lambda>u. sameDay h (newDate (dateOfBirth u))
                                 (parseDate h (dateOfBirthFilter crit))) st2
      else st2)"
  define st4 where "st4 = (if createdAtFilter crit \<noteq> []
      then array_filter (\<lambda>u. sameDay h (newDate (createdAt u))
                                 (parseDate h (createdAtFilter crit))) st3
      else st3)"
  define st5 where "st5 = (if updatedAtFilter crit \<noteq> []
      then array_filter (\<lambda>u. sameDay h (newDate (updatedAt u))
                                 (parseDate h (updatedAtFilter crit))) st4
      else st4)"
  define xs0 where "xs0 = H ! r"
  define xs1 where "xs1 = genderStage crit xs0"
  define xs2 where "xs2 = pictureStage crit xs1"
  define xs3 where "xs3 = dateOfBirthStage h crit xs2"
  define xs4 where "xs4 = createdAtStage h crit xs3"
  define xs5 where "xs5 = updatedAtStage h crit xs4"
  have run: "filteredUsers_heap h crit sc (r, H) = array_sort (compareUsers h sc) (array_spread st5)"
    by (simp only: filteredUsers_heap_def Let_def st1_def st2_def st3_def st4_def st5_def)
  have i0: "fst (r, H) < length (snd (r, H)) \<and> take (length H) (snd (r, H)) = H \<and>
            snd (r, H) ! fst (r, H) = xs0"
    using r by (simp add: xs0_def)
  have i1: "fst st1 < length (snd st1) \<and> take (length H) (snd st1) = H \<and> snd st1 ! fst st1 = xs1"
    unfolding st1_def xs1_def genderStage_def using i0 by (intro array_filter_step) simp_all
  have i2: "fst st2 < length (snd st2) \<and> take (length H) (snd st2) = H \<and> snd st2 ! fst st2 = xs2"
    unfolding st2_def xs2_def pictureStage_def using i1 by (intro array_filter_step) simp_all
  have i3: "fst st3 < length (snd st3) \<and> take (length H) (snd st3) = H \<and> snd st3 ! fst st3 = xs3"
    unfolding st3_def xs3_def dateOfBirthStage_def Let_def
    using i2 by (intro array_filter_step) simp_all
  have i4: "fst st4 < length (snd st4) \<and> take (length H) (snd st4) = H \<and> snd st4 ! fst st4 = xs4"
    unfolding st4_def xs4_def createdAtStage_def Let_def
    using i3 by (intro array_filter_step) simp_all
  have i5: "fst st5 < length (snd st5) \<and> take (length H) (snd st5) = H \<and> snd st5 ! fst st5 = xs5"
    unfolding st5_def xs5_def updatedAtStage_def Let_def
    using i4 by (intro array_filter_step) simp_all
  have len: "length H \<le> length (snd st5)"
    using i5 by (metis length_take min.cobounded1)
  have xs5: "xs5 = filterStages h crit (H ! r)"
    by (simp add: xs5_def xs4_def xs3_def xs2_def xs1_def xs0_def filterStages_def)
  have fin: "filteredUsers_heap h crit sc (r, H) =
      (length (snd st5), snd st5 @ [sortArray (compareUsers h sc) xs5])"
    using i5 by (cases st5) (simp add: run array_spread_def array_sort_def)
  have "snd st5 = take (length H) (snd st5) @ drop (length H) (snd st5)" by simp
  then have split: "snd st5 = H @ drop (length H) (snd st5)" using i5 by simp
  have "length (snd st5) = length H + length (drop (length H) (snd st5))"
    using len by simp
  then have "filteredUsers_heap h crit sc (r, H) =
      (length H + length (drop (length H) (snd st5)),
       H @ drop (length H) (snd st5) @ [filteredUsers h crit sc (H ! r)])"
    using split by (simp add: fin xs5 filteredUsers_def)
  then show ?thesis by blast
qed

subsection \<open>Sorting\<close>

lemma set_insertSorted: "set (insertSorted cmp x ys) = insert x (set ys)"
  by (induction ys) auto

lemma set_sortArray: "set (sortArray cmp xs) = set xs"
  by (induction xs) (simp_all add: sortArray_def set_insertSorted)

lemma insertSorted_late_skip:
  assumes "sorted_wrt (\<lambda>a b. late a \<longrightarrow> late b) (insertSorted cmp x ys)"
    and "\<forall>z\<in>set ys. late y \<longrightarrow> late z" and "late y \<longrightarrow> late x"
    and "comesAfter cmp x y"
  shows "sorted_wrt (\<lambda>a b. late a \<longrightarrow> late b) (insertSorted cmp x (y # ys))"
proof -
  have "\<forall>z\<in>set (insertSorted cmp x ys). late y \<longrightarrow> late z"
    unfolding set_insertSorted using assms(2,3) by blast
  then show ?thesis
    using assms(1,4) by (simp only: insertSorted.simps if_True sorted_wrt.simps simp_thms)
qed

lemma insertSorted_late_stop:
  assumes "sorted_wrt (\<lambda>a b. late a \<longrightarrow> late b) (y # ys)"
    and "late x \<longrightarrow> late y" and "\<not> comesAfter cmp x y"
  shows "sorted_wrt (\<lambda>a b. late a \<longrightarrow> late b) (insertSorted cmp x (y # ys))"
proof -
  have "\<forall>z\<in>set ys. late y \<longrightarrow> late z"
    using assms(1) by (simp only: sorted_wrt.simps) blast
  then have "\<forall>z\<in>set (y # ys). late x \<longrightarrow> late z"
    using assms(2) by (simp only: list.set) blast
  then have "sorted_wrt (\<lambda>a b. late a \<longrightarrow> late b) (x # y # ys)"
    using assms(1) by (subst sorted_wrt.simps) blast
  then show ?thesis
    using assms(3) by (simp only: insertSorted.simps if_False)
qed

lemma insertSorted_late:
  assumes A: "\<And>y. late x \<Longrightarrow> \<not> late y \<Longrightarrow> comesAfter cmp x y"
    and B: "\<And>y. \<not> late x \<Longrightarrow> late y \<Longrightarrow> \<not> comesAfter cmp x y"
  shows "sorted_wrt (\<lambda>a b. late a \<longrightarrow> late b) ys \<Longrightarrow>
         sorted_wrt (\<lambda>a b. late a \<longrightarrow> late b) (insertSorted cmp x ys)"
proof (induction ys)
  case Nil
  show ?case by (simp only: insertSorted.simps sorted_wrt.simps list.set ball_empty simp_thms)
next
  case (Cons y ys)
  from Cons.prems
  have both: "(\<forall>z\<in>set ys. late y \<longrightarrow> late z) \<and> sorted_wrt (\<lambda>a b. late a \<longrightarrow> late b) ys"
    unfolding sorted_wrt.simps by blast
  then have tail: "sorted_wrt (\<lambda>a b. late a \<longrightarrow> late b) ys" by (rule conjunct2)
  from both have head: "\<forall>z\<in>set ys. late y \<longrightarrow> late z" by (rule conjunct1)
  show ?case
  proof (cases "comesAfter cmp x y")
    case True
    then have yx: "late y \<longrightarrow> late x" using B by blast
    show ?thesis by (rule insertSorted_late_skip [OF Cons.IH [OF tail] head yx True])
  next
    case False
    then have xy: "late x \<longrightarrow> late y" using A by blast
    show ?thesis by (rule insertSorted_late_stop [OF Cons.prems xy False])
  qed
qed

lemma sortArray_late:
  assumes "\<And>x y. late x \<Longrightarrow> \<not> late y \<Longrightarrow> comesAfter cmp x y"
    and "\<And>x y. \<not> late x \<Longrightarrow> late y \<Longrightarrow> \<not> comesAfter cmp x y"
  shows "sorted_wrt (\<lambda>a b. late a \<longrightarrow> late b) (sortArray cmp xs)"
proof (induction xs)
  case Nil
  then show ?case by (simp add: sortArray_def)
next
  case (Cons x xs)
  have "sortArray cmp (x # xs) = insertSorted cmp x (sortArray cmp xs)"
    by (simp add: sortArray_def)
  moreover have "sorted_wrt (\<lambda>a b. late a \<longrightarrow> late b) (insertSorted cmp x (sortArray cmp xs))"
    by (rule insertSorted_late [OF assms(1) assms(2) Cons.IH])
  ultimately show ?case by (simp only:)
qed

lemma compare_picture:
  assumes "sortBy sc = key_profilePicture"
  shows "compareUsers h sc a b =
    (if pictureMissing a \<and> pictureMissing b then Some 0
     else if pictureMissing a then (if sortOrder sc = asc then Some 1 else Some (- 1))
     else if pictureMissing b then (if sortOrder sc = asc then Some (- 1) else Some 1)
     else if sortOrder sc = asc
          then Some (localeCompare h (or_empty (profilePicture a)) (or_empty (profilePicture b)))
          else Some (localeCompare h (or_empty (profilePicture b)) (or_empty (profilePicture a))))"
  using assms
  by (cases "profilePicture a"; cases "profilePicture b")
     (simp_all add: compareUsers_def Let_def optStr_def strOrEmpty_def pictureMissing_def
        or_empty_def)

subsection \<open>Membership in the view\<close>

lemma set_filterStages:
  "set (filterStages h crit us) =
     {u \<in> set us.
        (genderFilter crit \<noteq> all_genders \<longrightarrow> only (gender u) = genderFilter crit) \<and>
        (profilePictureFilter crit \<noteq> all_pictures \<longrightarrow>
           (if profilePictureFilter crit = with_picture then hasProfilePicture u
            else \<not> hasProfilePicture u)) \<and>
        (dateOfBirthFilter crit \<noteq> [] \<longrightarrow>
           sameDay h (newDate (dateOfBirth u)) (parseDate h (dateOfBirthFilter crit))) \<and>
        (createdAtFilter crit \<noteq> [] \<longrightarrow>
           sameDay h (newDate (createdAt u)) (parseDate h (createdAtFilter crit))) \<and>
        (updatedAtFilter crit \<noteq> [] \<longrightarrow>
           sameDay h (newDate (updatedAt u)) (parseDate h (updatedAtFilter crit)))}"
proof -
  have g: "set (genderStage crit xs) =
      {u \<in> set xs. genderFilter crit \<noteq> all_genders \<longrightarrow> only (gender u) = genderFilter crit}" for xs
    by (simp add: genderStage_def)
  have p: "set (pictureStage crit xs) =
      {u \<in> set xs. profilePictureFilter crit \<noteq> all_pictures \<longrightarrow>
           (if profilePictureFilter crit = with_picture then hasProfilePicture u
            else \<not> hasProfilePicture u)}" for xs
    by (simp add: pictureStage_def)
  have d: "set (dateOfBirthStage h crit xs) =
      {u \<in> set xs. dateOfBirthFilter crit \<noteq> [] \<longrightarrow>
           sameDay h (newDate (dateOfBirth u)) (parseDate h (dateOfBirthFilter crit))}" for xs
    by (simp add: dateOfBirthStage_def Let_def)
  have c: "set (createdAtStage h crit xs) =
      {u \<in> set xs. createdAtFilter crit \<noteq> [] \<longrightarrow>
           sameDay h (newDate (createdAt u)) (parseDate h (createdAtFilter crit))}" for xs
    by (simp add: createdAtStage_def Let_def)
  have w: "set (updatedAtStage h crit xs) =
      {u \<in> set xs. updatedAtFilter crit \<noteq> [] \<longrightarrow>
           sameDay h (newDate (updatedAt u)) (parseDate h (updatedAtFilter crit))}" for xs
    by (simp add: updatedAtStage_def Let_def)
  show ?thesis
    unfolding filterStages_def w c d p g by blast
qed

lemma set_filteredUsers: "set (filteredUsers h crit sc us) = set (filterStages h crit us)"
  by (simp add: filteredUsers_def set_sortArray)

lemma trim_blank:
  assumes "\<forall>c\<in>set s. isWhiteSpace c"
  shows "trim s = []"
proof -
  have d: "dropWhile isWhiteSpace s = []" using assms by (induction s) simp_all
  show ?thesis unfolding trim_def d by simp
qed

text \<open>
  C6. Run in any order, the five filter stages give the list the source's order gives.
  The engine leaves every array that existed before the call as it was, the users' array
  included, and returns a reference to an array allocated during the call, which holds
  the view.
\<close>

theorem filter_stages_commute_and_copy:
  "(mset order = mset [Gender, Picture, DateOfBirth, CreatedAt, UpdatedAt] \<longrightarrow>
      runStages h crit order us = filterStages h crit us) \<and>
   (r < length H \<longrightarrow>
      (case filteredUsers_heap h crit sc (r, H) of
         (r', H') \<Rightarrow>
           H' ! r = H ! r \<and> take (length H) H' = H \<and> length H \<le> r' \<and> r' < length H' \<and>
           H' ! r' = filteredUsers h crit sc (H ! r)))"
proof (intro conjI impI)
  assume "mset order = mset [Gender, Picture, DateOfBirth, CreatedAt, UpdatedAt]"
  then have "set order = set [Gender, Picture, DateOfBirth, CreatedAt, UpdatedAt]"
    by (rule mset_eq_setD)
  then show "runStages h crit order us = filterStages h crit us"
    unfolding filterStages_runStages by (rule runStages_set)
next
  assume r: "r < length H"
  obtain H2 where res: "filteredUsers_heap h crit sc (r, H) =
      (length H + length H2, H @ H2 @ [filteredUsers h crit sc (H ! r)])"
    using filteredUsers_heap_result [OF r] by blast
  have "(H @ H2 @ [filteredUsers h crit sc (H ! r)]) ! (length H + length H2) =
      filteredUsers h crit sc (H ! r)"
    by (simp add: nth_append)
  then show "case filteredUsers_heap h crit sc (r, H) of
         (r', H') \<Rightarrow>
           H' ! r = H ! r \<and> take (length H) H' = H \<and> length H \<le> r' \<and> r' < length H' \<and>
           H' ! r' = filteredUsers h crit sc (H ! r)"
    using r by (simp add: res nth_append)
qed

lemma hasProfilePicture_bob: "\<not> hasProfilePicture bob"
  by (simp add: hasProfilePicture_def bob_def)

lemma hasProfilePicture_ann: "hasProfilePicture ann"
  by (simp add: hasProfilePicture_def ann_def trim_def isWhiteSpace_def)

theorem filter_stages_commute_and_copy_witness:
  "runStages (fixedOffsetHost 0) onlyWithPicture [UpdatedAt, CreatedAt, DateOfBirth, Picture, Gender]
     [bob, ann] = [ann] \<and>
   (case filteredUsers_heap (fixedOffsetHost 0) onlyWithPicture byName (0, [[bob, ann]]) of
      (r', H') \<Rightarrow> H' ! 0 = [bob, ann] \<and> 1 \<le> r' \<and> r' < length H' \<and> H' ! r' = [ann])"
proof -
  have m: "mset [UpdatedAt, CreatedAt, DateOfBirth, Picture, Gender] =
           mset [Gender, Picture, DateOfBirth, CreatedAt, UpdatedAt]"
    by simp
  have f: "filterStages (fixedOffsetHost 0) onlyWithPicture [bob, ann] = [ann]"
    by (simp add: filterStages_def genderStage_def pictureStage_def dateOfBirthStage_def
        createdAtStage_def updatedAtStage_def onlyWithPicture_def noFilters_def
        hasProfilePicture_bob hasProfilePicture_ann)
  have s: "filteredUsers (fixedOffsetHost 0) onlyWithPicture byName [bob, ann] = [ann]"
    by (simp add: filteredUsers_def f sortArray_def)
  have r: "(0::nat) < length [[bob, ann]]" by simp
  show ?thesis
    using filter_stages_commute_and_copy [where order = "[UpdatedAt, CreatedAt, DateOfBirth, Picture, Gender]"
      and h = "fixedOffsetHost 0" and crit = onlyWithPicture and us = "[bob, ann]" and r = 0
      and H = "[[bob, ann]]" and sc = byName] m r
    by (auto simp: f s)
qed

subsection \<open>Sorting by picture\<close>

lemma comesAfter_picture:
  assumes "sortBy sc = key_profilePicture"
  shows "comesAfter (compareUsers h sc) a b \<longleftrightarrow>
     (if pictureMissing a \<and> pictureMissing b then False
      else if pictureMissing a then sortOrder sc = asc
      else if pictureMissing b then sortOrder sc \<noteq> asc
      else if sortOrder sc = asc
           then 0 < localeCompare h (or_empty (profilePicture a)) (or_empty (profilePicture b))
           else 0 < localeCompare h (or_empty (profilePicture b)) (or_empty (profilePicture a)))"
  by (simp add: comesAfter_def compare_picture [OF assms])

lemma sortArray_pair:
  "sortArray cmp [a, b] = (if comesAfter cmp a b then [b, a] else [a, b])"
  by (simp add: sortArray_def)

lemma missingLast_sorted_wrt:
  "missingLast ys \<longleftrightarrow> sorted_wrt (\<lambda>a b. pictureMissing a \<longrightarrow> pictureMissing b) ys"
  unfolding missingLast_def sorted_wrt_iff_nth_less by blast

lemma missingFirst_sorted_wrt:
  "missingFirst ys \<longleftrightarrow> sorted_wrt (\<lambda>a b. \<not> pictureMissing a \<longrightarrow> \<not> pictureMissing b) ys"
  unfolding missingFirst_def sorted_wrt_iff_nth_less by blast

lemma sort_by_picture_asc:
  assumes "sortBy sc = key_profilePicture" "sortOrder sc = asc"
  shows "missingLast (sortArray (compareUsers h sc) xs)"
  unfolding missingLast_sorted_wrt
  by (rule sortArray_late) (simp_all add: comesAfter_picture [OF assms(1)] assms(2))

lemma sort_by_picture_desc:
  assumes "sortBy sc = key_profilePicture" "sortOrder sc = desc"
  shows "missingFirst (sortArray (compareUsers h sc) xs)"
  unfolding missingFirst_sorted_wrt
  by (rule sortArray_late) (simp_all add: comesAfter_picture [OF assms(1)] assms(2))

text \<open>
  C2. Sorting by \<open>profilePicture\<close>: for a record without a picture and one with a
  picture the comparator answers as if the missing value were the greater, with the sign
  turned for descending order, so the record without a picture comes after the other
  when ascending and before it when descending, in a pair and in every sorted view; two
  pictures that are present are compared by \<open>localeCompare\<close>, in the direction asked.
\<close>

theorem profilePicture_sort_places_missing:
  assumes "sortBy sc = key_profilePicture"
  shows
    "(pictureMissing a \<and> \<not> pictureMissing b \<longrightarrow>
        compareUsers h sc a b = Some (if sortOrder sc = asc then 1 else - 1) \<and>
        compareUsers h sc b a = Some (if sortOrder sc = asc then - 1 else 1) \<and>
        sortArray (compareUsers h sc) [a, b] = (if sortOrder sc = asc then [b, a] else [a, b]) \<and>
        sortArray (compareUsers h sc) [b, a] = (if sortOrder sc = asc then [b, a] else [a, b])) \<and>
     (profilePicture a = Some x \<and> x \<noteq> [] \<and> profilePicture b = Some y \<and> y \<noteq> [] \<longrightarrow>
        compareUsers h sc a b =
          Some (if sortOrder sc = asc then localeCompare h x y else localeCompare h y x)) \<and>
     (sortOrder sc = asc \<longrightarrow> missingLast (filteredUsers h crit sc us)) \<and>
     (sortOrder sc = desc \<longrightarrow> missingFirst (filteredUsers h crit sc us))"
proof (intro conjI impI)
  assume ab: "pictureMissing a \<and> \<not> pictureMissing b"
  show "compareUsers h sc a b = Some (if sortOrder sc = asc then 1 else - 1)"
    using ab by (simp add: compare_picture [OF assms])
  show "compareUsers h sc b a = Some (if sortOrder sc = asc then - 1 else 1)"
    using ab by (simp add: compare_picture [OF assms])
  show "sortArray (compareUsers h sc) [a, b] = (if sortOrder sc = asc then [b, a] else [a, b])"
    using ab by (simp add: sortArray_pair comesAfter_picture [OF assms])
  show "sortArray (compareUsers h sc) [b, a] = (if sortOrder sc = asc then [b, a] else [a, b])"
    using ab by (simp add: sortArray_pair comesAfter_picture [OF assms])
next
  assume "profilePicture a = Some x \<and> x \<noteq> [] \<and> profilePicture b = Some y \<and> y \<noteq> []"
  then show "compareUsers h sc a b =
      Some (if sortOrder sc = asc then localeCompare h x y else localeCompare h y x)"
    by (simp add: compare_picture [OF assms] pictureMissing_def or_empty_def)
next
  assume "sortOrder sc = asc"
  then show "missingLast (filteredUsers h crit sc us)"
    unfolding filteredUsers_def by (rule sort_by_picture_asc [OF assms])
next
  assume "sortOrder sc = desc"
  then show "missingFirst (filteredUsers h crit sc us)"
    unfolding filteredUsers_def by (rule sort_by_picture_desc [OF assms])
qed

theorem profilePicture_sort_places_missing_witness:
  "sortBy (byPicture asc) = key_profilePicture \<and> pictureMissing bob \<and> \<not> pictureMissing ann \<and>
   sortArray (compareUsers (fixedOffsetHost 0) (byPicture asc)) [bob, ann] = [ann, bob] \<and>
   sortArray (compareUsers (fixedOffsetHost 0) (byPicture asc)) [ann, bob] = [ann, bob] \<and>
   sortArray (compareUsers (fixedOffsetHost 0) (byPicture desc)) [ann, bob] = [bob, ann] \<and>
   missingLast (filteredUsers (fixedOffsetHost 0) noFilters (byPicture asc) [bob, ann]) \<and>
   missingFirst (filteredUsers (fixedOffsetHost 0) noFilters (byPicture desc) [ann, bob])"
proof -
  have k: "sortBy (byPicture d) = key_profilePicture" "sortOrder (byPicture d) = d" for d
    by (simp_all add: byPicture_def)
  have m: "pictureMissing bob" "\<not> pictureMissing ann"
    by (simp_all add: pictureMissing_def bob_def ann_def)
  show ?thesis
    using profilePicture_sort_places_missing [where sc = "byPicture asc" and a = bob and b = ann
        and h = "fixedOffsetHost 0" and crit = noFilters and us = "[bob, ann]"]
      profilePicture_sort_places_missing [where sc = "byPicture desc" and a = bob and b = ann
        and h = "fixedOffsetHost 0" and crit = noFilters and us = "[ann, bob]"]
      m
    by (simp add: k)
qed

subsection \<open>The date-of-birth filter\<close>












subsection \<open>A picture of white space\<close>

text \<open>
  C10. A record whose picture is a non-empty string of white space only: the presence
  filter, which trims, counts it as without a picture (the setting \<open>with\<close> leaves it
  out; the setting \<open>without\<close>, the other filters being off, keeps it), while the
  comparator for \<open>profilePicture\<close>, which tests emptiness only, treats it as present:
  against another present picture it answers by \<open>localeCompare\<close>, and against a missing
  one it places the record as one that has a picture.
\<close>

theorem blank_picture_filter_and_sort_disagree:
  assumes "profilePicture u = Some s" "s \<noteq> []" "\<forall>c\<in>set s. isWhiteSpace c"
  shows
    "\<not> hasProfilePicture u \<and> \<not> pictureMissing u \<and>
     (profilePictureFilter crit = with_picture \<longrightarrow> u \<notin> set (filteredUsers h crit sc us)) \<and>
     (profilePictureFilter crit = without_picture \<and> genderFilter crit = all_genders \<and>
      dateOfBirthFilter crit = [] \<and> createdAtFilter crit = [] \<and> updatedAtFilter crit = [] \<and>
      u \<in> set us \<longrightarrow> u \<in> set (filteredUsers h crit sc us)) \<and>
     (sortBy sc = key_profilePicture \<longrightarrow>
        (profilePicture b = Some y \<and> y \<noteq> [] \<longrightarrow>
           compareUsers h sc u b =
             Some (if sortOrder sc = asc then localeCompare h s y else localeCompare h y s)) \<and>
        (pictureMissing b \<longrightarrow>
           compareUsers h sc u b = Some (if sortOrder sc = asc then - 1 else 1) \<and>
           compareUsers h sc b u = Some (if sortOrder sc = asc then 1 else - 1)))"
proof -
  have no: "\<not> hasProfilePicture u"
    using assms by (simp add: hasProfilePicture_def trim_blank)
  have present: "\<not> pictureMissing u"
    using assms by (simp add: pictureMissing_def)
  have out: "u \<notin> set (filteredUsers h crit sc us)" if "profilePictureFilter crit = with_picture"
    using that no by (simp add: set_filteredUsers set_filterStages)
  have keep: "u \<in> set (filteredUsers h crit sc us)"
    if "profilePictureFilter crit = without_picture" "genderFilter crit = all_genders"
      "dateOfBirthFilter crit = []" "createdAtFilter crit = []" "updatedAtFilter crit = []"
      "u \<in> set us"
    using that no by (simp add: set_filteredUsers set_filterStages)
  have c1: "compareUsers h sc u b =
      Some (if sortOrder sc = asc then localeCompare h s y else localeCompare h y s)"
    if "sortBy sc = key_profilePicture" "profilePicture b = Some y" "y \<noteq> []"
    using that assms present
    by (simp add: compare_picture pictureMissing_def or_empty_def)
  have c2: "compareUsers h sc u b = Some (if sortOrder sc = asc then - 1 else 1)"
    and c3: "compareUsers h sc b u = Some (if sortOrder sc = asc then 1 else - 1)"
    if "sortBy sc = key_profilePicture" "pictureMissing b"
    using that present by (simp_all add: compare_picture)
  show ?thesis
    using no present out keep c1 c2 c3 by blast
qed

theorem blank_picture_filter_and_sort_disagree_witness:
  "profilePicture blankPictureUser = Some '' '' \<and>
   blankPictureUser \<notin> set (filteredUsers (fixedOffsetHost 0) onlyWithPicture (byPicture asc)
      [bob, blankPictureUser, ann]) \<and>
   blankPictureUser \<in> set (filteredUsers (fixedOffsetHost 0) onlyWithoutPicture (byPicture asc)
      [bob, blankPictureUser, ann]) \<and>
   compareUsers (fixedOffsetHost 0) (byPicture asc) blankPictureUser ann = Some (- 1) \<and>
   compareUsers (fixedOffsetHost 0) (byPicture asc) blankPictureUser bob = Some (- 1) \<and>
   compareUsers (fixedOffsetHost 0) (byPicture asc) bob blankPictureUser = Some 1"
proof -
  have p: "profilePicture blankPictureUser = Some '' ''"
    by (simp add: blankPictureUser_def)
  have w: "\<forall>c\<in>set '' ''. isWhiteSpace c" by (simp add: isWhiteSpace_def)
  have n: "'' '' \<noteq> []" by simp
  have k: "sortBy (byPicture asc) = key_profilePicture" "sortOrder (byPicture asc) = asc"
    by (simp_all add: byPicture_def)
  have a: "profilePicture ann = Some ''http://x''" "pictureMissing bob"
    by (simp_all add: ann_def bob_def pictureMissing_def)
  have l: "localeCompare (fixedOffsetHost 0) '' '' ''http://x'' = - 1"
    by (simp add: fixedOffsetHost_def)
  have f: "profilePictureFilter onlyWithPicture = with_picture"
    "profilePictureFilter onlyWithoutPicture = without_picture"
    "genderFilter onlyWithoutPicture = all_genders" "dateOfBirthFilter onlyWithoutPicture = []"
    "createdAtFilter onlyWithoutPicture = []" "updatedAtFilter onlyWithoutPicture = []"
    by (simp_all add: onlyWithPicture_def onlyWithoutPicture_def noFilters_def)
  show ?thesis
    using blank_picture_filter_and_sort_disagree [OF p n w, where crit = onlyWithPicture
        and h = "fixedOffsetHost 0" and sc = "byPicture asc" and us = "[bob, blankPictureUser, ann]"
        and b = ann and y = "''http://x''"]
      blank_picture_filter_and_sort_disagree [OF p n w, where crit = onlyWithoutPicture
        and h = "fixedOffsetHost 0" and sc = "byPicture asc" and us = "[bob, blankPictureUser, ann]"
        and b = bob and y = "''http://x''"]
    by (simp add: p k a l f)
qed

section \<open>The collection store\<close>












lemma findIndex_none: "(\<forall>x\<in>set xs. \<not> p x) \<Longrightarrow> findIndex p xs = - 1"
  by (induction xs) simp_all

lemma findIndex_first:
  "k < length xs \<Longrightarrow> p (xs ! k) \<Longrightarrow> (\<forall>j<k. \<not> p (xs ! j)) \<Longrightarrow> findIndex p xs = int k"
proof (induction xs arbitrary: k)
  case Nil
  then show ?case by simp
next
  case (Cons x xs)
  show ?case
  proof (cases k)
    case 0
    with Cons.prems show ?thesis by simp
  next
    case (Suc m)
    have nx: "\<not> p x" using Cons.prems(3) Suc by (metis nth_Cons_0 zero_less_Suc)
    have "\<forall>j<m. \<not> p (xs ! j)"
      using Cons.prems(3) Suc by (metis Suc_less_eq nth_Cons_Suc)
    then have "findIndex p xs = int m"
      using Cons.IH [of m] Cons.prems(1,2) Suc by simp
    then show ?thesis using nx Suc by (simp add: Let_def)
  qed
qed

lemma updateUser_success:
  "updateUser (Inr updatedUser) s =
     \<lparr>returned = Some updatedUser,
      started = Some (s\<lparr>loading := True, error := None\<rparr>),
      final = s\<lparr>users :=
                   (if findIndex (\<lambda>u. id_field u = id_field updatedUser) (users s) \<noteq> - 1
                    then (users s)[nat (findIndex (\<lambda>u. id_field u = id_field updatedUser) (users s))
                                   := updatedUser]
                    else users s),
                 loading := False, error := None,
                 console := console s @ [ConsoleLog ''User updated successfully'']\<rparr>\<rparr>"
  by (simp add: updateUser_def withLoadingAndError_def Let_def)

text \<open>
  C7. When the remote update succeeds, \<open>updateUser\<close> returns the updated record and leaves
  no error. If no record of the list has the returned id the list is unchanged; if the
  first record with that id is at position \<open>k\<close>, the list is the old one with position
  \<open>k\<close> replaced, every other position as before. The length never changes.
\<close>

theorem updateUser_replaces_in_place:
  "returned (updateUser (Inr updatedUser) s) = Some updatedUser \<and>
   error (final (updateUser (Inr updatedUser) s)) = None \<and>
   length (users (final (updateUser (Inr updatedUser) s))) = length (users s) \<and>
   ((\<forall>u\<in>set (users s). id_field u \<noteq> id_field updatedUser) \<longrightarrow>
      users (final (updateUser (Inr updatedUser) s)) = users s) \<and>
   (k < length (users s) \<and> id_field (users s ! k) = id_field updatedUser \<and>
    (\<forall>j<k. id_field (users s ! j) \<noteq> id_field updatedUser) \<longrightarrow>
      users (final (updateUser (Inr updatedUser) s)) = (users s)[k := updatedUser] \<and>
      users (final (updateUser (Inr updatedUser) s)) ! k = updatedUser \<and>
      (\<forall>j<length (users s). j \<noteq> k \<longrightarrow>
         users (final (updateUser (Inr updatedUser) s)) ! j = users s ! j))"
proof -
  let ?p = "\<lambda>u. id_field u = id_field updatedUser"
  have none: "users (final (updateUser (Inr updatedUser) s)) = users s"
    if "\<forall>u\<in>set (users s). id_field u \<noteq> id_field updatedUser"
    using findIndex_none [of "users s" ?p] that by (simp add: updateUser_success)
  have some: "users (final (updateUser (Inr updatedUser) s)) = (users s)[k := updatedUser]"
    if "k < length (users s)" "id_field (users s ! k) = id_field updatedUser"
      "\<forall>j<k. id_field (users s ! j) \<noteq> id_field updatedUser"
    using findIndex_first [of k "users s" ?p] that by (simp add: updateUser_success)
  have len: "length (users (final (updateUser (Inr updatedUser) s))) = length (users s)"
    by (simp add: updateUser_success)
  show ?thesis
    using none some len by (simp add: updateUser_success)
qed

theorem updateUser_replaces_in_place_witness:
  "users (final (updateUser (Inr (ann\<lparr>id_field := Some ''zz''\<rparr>)) exampleStore)) = [bob, ann] \<and>
   users (final (updateUser (Inr (ann\<lparr>name := ''Anna''\<rparr>)) exampleStore)) =
     [bob, ann\<lparr>name := ''Anna''\<rparr>]"
proof -
  have a: "\<forall>u\<in>set (users exampleStore). id_field u \<noteq> id_field (ann\<lparr>id_field := Some ''zz''\<rparr>)"
    by (simp add: exampleStore_def bob_def ann_def)
  have b: "1 < length (users exampleStore) \<and>
      id_field (users exampleStore ! 1) = id_field (ann\<lparr>name := ''Anna''\<rparr>) \<and>
      (\<forall>j<1. id_field (users exampleStore ! j) \<noteq> id_field (ann\<lparr>name := ''Anna''\<rparr>))"
    by (simp add: exampleStore_def bob_def ann_def)
  have u: "users exampleStore = [bob, ann]" by (simp add: exampleStore_def)
  show ?thesis
    using updateUser_replaces_in_place [of "ann\<lparr>id_field := Some ''zz''\<rparr>" exampleStore 0] a
      updateUser_replaces_in_place [of "ann\<lparr>name := ''Anna''\<rparr>" exampleStore 1] b
    by (simp add: u)
qed

lemma deleteUser_success:
  "returned (deleteUser i (Inr x) s) = True \<and>
   final (deleteUser i (Inr x) s) =
     s\<lparr>users := filter (\<lambda>u. id_field u \<noteq> Some i) (users s),
       loading := False, error := None,
       console := console s @ [ConsoleLog ''User deleted successfully'']\<rparr>"
proof -
  have "withLoadingAndError
          (\<lambda>s1. case Inr x :: unit settled of
                   Inl err \<Rightarrow> (Inl err, s1)
                 | Inr _ \<Rightarrow>
                     (Inr True, s1\<lparr>users := filter (\<lambda>u. id_field u \<noteq> Some i) (users s1)\<rparr>))
          (Some ''User deleted successfully'') s =
        \<lparr>returned = Some True, started = Some (s\<lparr>loading := True, error := None\<rparr>),
         final = s\<lparr>users := filter (\<lambda>u. id_field u \<noteq> Some i) (users s),
                   loading := False, error := None,
                   console := console s @ [ConsoleLog ''User deleted successfully'']\<rparr>\<rparr>"
    by (simp add: withLoadingAndError_def Let_def)
  then show ?thesis by (simp add: deleteUser_def Let_def del: not_None_eq)
qed

text \<open>
  C8. A successful \<open>deleteUser\<close> filters the id out of the list. Doing it again with the
  same id succeeds and gives the same list, so the same length; deleting an id that no
  record of the list has leaves the list as it is, returns \<open>true\<close> and sets no error.
\<close>

theorem deleteUser_idempotent:
  "users (final (deleteUser i (Inr ()) s)) = filter (\<lambda>u. id_field u \<noteq> Some i) (users s) \<and>
   filter (\<lambda>u. id_field u \<noteq> Some i) (filter (\<lambda>u. id_field u \<noteq> Some i) (users s)) =
     filter (\<lambda>u. id_field u \<noteq> Some i) (users s) \<and>
   returned (deleteUser i (Inr ()) (final (deleteUser i (Inr ()) s))) = True \<and>
   error (final (deleteUser i (Inr ()) (final (deleteUser i (Inr ()) s)))) = None \<and>
   users (final (deleteUser i (Inr ()) (final (deleteUser i (Inr ()) s)))) =
     users (final (deleteUser i (Inr ()) s)) \<and>
   length (users (final (deleteUser i (Inr ()) (final (deleteUser i (Inr ()) s))))) =
     length (users (final (deleteUser i (Inr ()) s))) \<and>
   ((\<forall>u\<in>set (users s). id_field u \<noteq> Some i) \<longrightarrow>
      users (final (deleteUser i (Inr ()) s)) = users s \<and>
      returned (deleteUser i (Inr ()) s) = True \<and>
      error (final (deleteUser i (Inr ()) s)) = None)"
  by (simp add: deleteUser_success)

theorem deleteUser_idempotent_witness:
  "users (final (deleteUser ''b'' (Inr ()) exampleStore)) = [ann] \<and>
   users (final (deleteUser ''b'' (Inr ()) (final (deleteUser ''b'' (Inr ()) exampleStore)))) = [ann] \<and>
   users (final (deleteUser ''zz'' (Inr ()) exampleStore)) = [bob, ann] \<and>
   returned (deleteUser ''zz'' (Inr ()) exampleStore) = True"
proof -
  have a: "\<forall>u\<in>set (users exampleStore). id_field u \<noteq> Some ''zz''"
    by (simp add: exampleStore_def bob_def ann_def)
  have f: "filter (\<lambda>u. id_field u \<noteq> Some ''b'') (users exampleStore) = [ann]"
    by (simp add: exampleStore_def bob_def ann_def)
  have u: "users exampleStore = [bob, ann]" by (simp add: exampleStore_def)
  note b = deleteUser_idempotent [of "''b''" exampleStore]
  note z = deleteUser_idempotent [of "''zz''" exampleStore]
  have b1: "users (final (deleteUser ''b'' (Inr ()) exampleStore)) = [ann]"
    using b [THEN conjunct1] by (simp only: f)
  from b have b2: "users (final (deleteUser ''b'' (Inr ())
        (final (deleteUser ''b'' (Inr ()) exampleStore)))) =
      users (final (deleteUser ''b'' (Inr ()) exampleStore))"
    by blast
  from z a have z1: "users (final (deleteUser ''zz'' (Inr ()) exampleStore)) = users exampleStore"
    and z2: "returned (deleteUser ''zz'' (Inr ()) exampleStore) = True"
    by blast+
  show ?thesis
    using b1 b2 z1 z2 by (simp only: u simp_thms)
qed

end
